theory Spec2Isabelle
  imports Complex_Main "HOL-Library.Word"
begin

unbundle bit_operations_syntax

section \<open>Buffers and numbers\<close>

text \<open>
  A Node \<open>Buffer\<close> is a list of bytes. JavaScript numbers that hold integers are
  \<open>int\<close>; the two places where the source computes with fractions (the draw of
  \<open>Math.random()\<close> and the timezone of the discovery packet) use \<open>real\<close>.
  Reading past the end of a buffer gives \<open>undefined\<close> (\<open>None\<close>); a store into a
  buffer element converts the number to a byte (modulo 256) and a store past the end is
  dropped, which is what \<open>list_update\<close> does.
\<close>

type_synonym byte = "8 word"
type_synonym buffer = "byte list"

datatype js_error = RangeError | WrongFinalBlockLength | TypeError

definition alloc :: "nat \<Rightarrow> buffer" where
  "alloc n = replicate n 0"

definition load :: "buffer \<Rightarrow> nat \<Rightarrow> int option" where
  "load buf i = (if i < length buf then Some (uint (buf ! i)) else None)"

text \<open>\<open>undefined\<close> in a bitwise operation or stored into a buffer element counts as 0.\<close>

definition num :: "int option \<Rightarrow> int" where
  "num v = (case v of None \<Rightarrow> 0 | Some n \<Rightarrow> n)"

definition store :: "buffer \<Rightarrow> nat \<Rightarrow> int \<Rightarrow> buffer" where
  "store buf i v = buf[i := word_of_int v]"

text \<open>
  \<open>source.copy(target, targetStart, sourceStart, sourceEnd)\<close> of Node checks its
  arguments first: a source start past the end of the source is a \<open>RangeError\<close>,
  whatever the other arguments are (a source start equal to the length of the source is
  allowed). Then nothing is copied when the target start is at or past the end of the
  target or the source range is empty, and else as many bytes are copied as the source
  range and the room in the target allow. An omitted \<open>sourceEnd\<close> (\<open>None\<close>) is the
  length of the source. The source passes no negative argument. The result is the
  target after the copy.
\<close>

definition copy :: "buffer \<Rightarrow> buffer \<Rightarrow> nat \<Rightarrow> nat \<Rightarrow> nat option \<Rightarrow> js_error + buffer" where
  "copy source target targetStart sourceStart sourceEnd =
     (let se = (case sourceEnd of None \<Rightarrow> length source | Some e \<Rightarrow> e) in
      if sourceStart > length source then Inl RangeError
      else if targetStart \<ge> length target \<or> sourceStart \<ge> se then Inr target
      else
        let nb = min (min (se - sourceStart) (length target - targetStart))
                     (length source - sourceStart)
        in Inr (take targetStart target @ take nb (drop sourceStart source)
                @ drop (targetStart + nb) target))"

text \<open>\<open>buf.toString('hex')\<close>: two lower-case digits per byte.\<close>

definition hex_digit :: "nat \<Rightarrow> char" where
  "hex_digit n = (''0123456789abcdef'' ! (n mod 16))"

definition to_hex :: "buffer \<Rightarrow> string" where
  "to_hex buf = concat (map (\<lambda>b. [hex_digit (unat b div 16), hex_digit (unat b mod 16)]) buf)"

text \<open>
  \<open>x & y\<close> and \<open>x | y\<close> first convert their operands to 32-bit integers; a fraction is
  truncated towards zero.
\<close>

definition trunc :: "real \<Rightarrow> int" where
  "trunc r = (if 0 \<le> r then \<lfloor>r\<rfloor> else \<lceil>r\<rceil>)"

definition to_int32 :: "real \<Rightarrow> int" where
  "to_int32 r = (let m = trunc r mod 2 ^ 32 in if m \<ge> 2 ^ 31 then m - 2 ^ 32 else m)"

section \<open>Device classification tables\<close>

definition rmDeviceTypes :: "(int \<times> string) list" where
  "rmDeviceTypes =
    [(0x2737, ''Broadlink RM Mini''),
     (0x27c7, ''Broadlink RM Mini 3 A''),
     (0x27c2, ''Broadlink RM Mini 3 B''),
     (0x27de, ''Broadlink RM Mini 3 C''),
     (0x5f36, ''Broadlink RM Mini 3 D''),
     (0x273d, ''Broadlink RM Pro Phicomm''),
     (0x2712, ''Broadlink RM2''),
     (0x2783, ''Broadlink RM2 Home Plus''),
     (0x277c, ''Broadlink RM2 Home Plus GDT''),
     (0x278f, ''Broadlink RM Mini Shate'')]"

definition rmPlusDeviceTypes :: "(int \<times> string) list" where
  "rmPlusDeviceTypes =
    [(0x272a, ''Broadlink RM2 Pro Plus''),
     (0x2787, ''Broadlink RM2 Pro Plus v2''),
     (0x278b, ''Broadlink RM2 Pro Plus BL''),
     (0x2797, ''Broadlink RM2 Pro Plus HYC''),
     (0x27a1, ''Broadlink RM2 Pro Plus R1''),
     (0x27a6, ''Broadlink RM2 Pro PP''),
     (0x279d, ''Broadlink RM3 Pro Plus''),
     (0x27a9, ''Broadlink RM3 Pro Plus v2''),
     (0x27c3, ''Broadlink RM3 Pro'')]"

definition unsupportedDeviceTypes :: "(int \<times> string) list" where
  "unsupportedDeviceTypes =
    [(0, ''Broadlink SP1''),
     (0x2711, ''Broadlink SP2''),
     (0x2719, ''Honeywell SP2''),
     (0x7919, ''Honeywell SP2''),
     (0x271a, ''Honeywell SP2''),
     (0x791a, ''Honeywell SP2''),
     (0x2733, ''OEM Branded SP Mini''),
     (0x273e, ''OEM Branded SP Mini''),
     (0x2720, ''Broadlink SP Mini''),
     (0x7d07, ''Broadlink SP Mini''),
     (0x753e, ''Broadlink SP 3''),
     (0x2728, ''Broadlink SPMini 2''),
     (0x2736, ''Broadlink SPMini Plus''),
     (0x2714, ''Broadlink A1''),
     (0x4EB5, ''Broadlink MP1''),
     (0x2722, ''Broadlink S1 (SmartOne Alarm Kit)''),
     (0x4E4D, ''Dooya DT360E (DOOYA_CURTAIN_V2) or Hysen Heating Controller''),
     (0x4ead, ''Dooya DT360E (DOOYA_CURTAIN_V2) or Hysen Heating Controller''),
     (0x947a, ''BroadLink Outlet'')]"

section \<open>The cipher of Node's crypto module\<close>

text \<open>
  \<open>createCipheriv('aes-128-cbc', key, iv)\<close> and \<open>createDecipheriv\<close> belong to Node, not
  to this repository. The AES block function is a parameter of the model (a function
  from a key and a 16-byte block to a block); the cipher-block chaining around it is
  written out. \<open>cipher.update(data)\<close> encrypts the complete 16-byte blocks of \<open>data\<close>
  and keeps a shorter rest for \<open>cipher.final()\<close>.
\<close>

type_synonym block_cipher = "buffer \<Rightarrow> buffer \<Rightarrow> buffer"

definition xor_block :: "buffer \<Rightarrow> buffer \<Rightarrow> buffer" where
  "xor_block a b = map2 (XOR) a b"

fun cbc_encrypt :: "block_cipher \<Rightarrow> buffer \<Rightarrow> buffer \<Rightarrow> nat \<Rightarrow> buffer \<Rightarrow> buffer" where
  "cbc_encrypt E k prev 0 data = []"
| "cbc_encrypt E k prev (Suc n) data =
     (let c = E k (xor_block prev (take 16 data))
      in c @ cbc_encrypt E k c n (drop 16 data))"

definition cipher_update :: "block_cipher \<Rightarrow> buffer \<Rightarrow> buffer \<Rightarrow> buffer \<Rightarrow> buffer" where
  "cipher_update E k v data = cbc_encrypt E k v (length data div 16) data"

fun cbc_decrypt :: "block_cipher \<Rightarrow> buffer \<Rightarrow> buffer \<Rightarrow> nat \<Rightarrow> buffer \<Rightarrow> buffer" where
  "cbc_decrypt D k prev 0 data = []"
| "cbc_decrypt D k prev (Suc n) data =
     (let c = take 16 data
      in xor_block prev (D k c) @ cbc_decrypt D k c n (drop 16 data))"

text \<open>
  \<open>decipher.setAutoPadding(false); decipher.update(data)\<close> followed by
  \<open>decipher.final()\<close>: the complete blocks are decrypted, and \<open>final\<close> throws when a
  partial block is left.
\<close>

definition decipher_all :: "block_cipher \<Rightarrow> buffer \<Rightarrow> buffer \<Rightarrow> buffer \<Rightarrow> js_error + buffer" where
  "decipher_all D k v data =
     (if length data mod 16 \<noteq> 0 then Inl WrongFinalBlockLength
      else Inr (cbc_decrypt D k v (length data div 16) data))"

section \<open>The wraparound checksum\<close>

text \<open>
  Both checksum loops start from \<open>0xbeaf\<close> and add every byte of the buffer. The loop
  of \<open>sendPacket\<close> masks with \<open>0xffff\<close> after every addition, the loop of
  \<open>onListening\<close> masks once after the loop.
\<close>

definition checksum_masked :: "buffer \<Rightarrow> int" where
  "checksum_masked buf = fold (\<lambda>b c. (c + uint b) AND 0xffff) buf 0xbeaf"

definition checksum_once :: "buffer \<Rightarrow> int" where
  "checksum_once buf = (fold (\<lambda>b c. c + uint b) buf 0xbeaf) AND 0xffff"

section \<open>The device session\<close>

record RemoteInfo =
  address :: string
  port :: int

datatype 'a promise = Pending | Fulfilled 'a | Rejected string

datatype event =
    DeviceReady
  | DataError int
  | Temperature "real option"
  | Data buffer
  | Sweep bool
  | RfData buffer

text \<open>
  The closures the source registers, as data: a listener of \<open>sweepFrequency\<close> holds the
  promise it settles and the timer it clears, and likewise for \<open>confirmFrequency\<close>;
  \<open>ReadyRelay\<close> is the listener \<open>addDevice\<close> registers.
\<close>

datatype listener =
    ReadyRelay
  | SweepListener nat nat
  | DataListener nat nat

datatype timer_action =
    SweepTimeout nat
  | SweepPoll
  | ConfirmTimeout nat
  | ConfirmPoll

datatype diagnostic =
    NoRFCapabilities
  | LongPressPrompt
  | ShortPressPrompt
  | UnknownCommand int

text \<open>
  The fields of the class, then what the session owns in its environment: the
  listeners of its emitter in registration order, its running timers (handle, delay
  in milliseconds, callback), the promises it has created, the datagrams handed to its
  socket, the lines it logged and the events it emitted. The source's field \<open>id\<close> is
  \<open>id_buf\<close> here.
\<close>

record BroadlinkDevice =
  host :: RemoteInfo
  mac :: buffer
  type :: int
  model :: "string option"
  count :: int
  sweepHandler :: "nat option"
  confirmHandler :: "nat option"
  key :: buffer
  iv :: buffer
  id_buf :: buffer
  capabilites_RF :: bool
  listeners :: "listener list"
  timers :: "(nat \<times> nat \<times> timer_action) list"
  next_timer :: nat
  sweep_promises :: "unit promise list"
  confirm_promises :: "buffer promise list"
  sent :: "buffer list"
  console :: "diagnostic list"
  emitted :: "event list"

definition log_line :: "diagnostic \<Rightarrow> BroadlinkDevice \<Rightarrow> BroadlinkDevice" where
  "log_line msg d = d\<lparr>console := console d @ [msg]\<rparr>"

text \<open>
  The constructor; \<open>r\<close> is the value \<open>Math.random()\<close> returns, a number in \<open>[0, 1)\<close>.
\<close>

definition initial_count :: "real \<Rightarrow> int" where
  "initial_count r = to_int32 r AND 0xffff"

definition initial_key :: buffer where
  "initial_key = [0x09, 0x76, 0x28, 0x34, 0x3f, 0xe9, 0x9e, 0x23,
                  0x76, 0x5c, 0x15, 0x13, 0xac, 0xcf, 0x8b, 0x02]"

definition initial_iv :: buffer where
  "initial_iv = [0x56, 0x2e, 0x17, 0x99, 0x6d, 0x09, 0x3d, 0x28,
                 0xdd, 0xb3, 0xba, 0x69, 0x5a, 0x2e, 0x6f, 0x58]"

definition or_else :: "'a option \<Rightarrow> 'a option \<Rightarrow> 'a option" where
  "or_else a b = (case a of None \<Rightarrow> b | Some x \<Rightarrow> Some x)"

definition new_BroadlinkDevice :: "RemoteInfo \<Rightarrow> buffer \<Rightarrow> int \<Rightarrow> real \<Rightarrow> BroadlinkDevice" where
  "new_BroadlinkDevice h m t r =
     \<lparr> host = h, mac = m, type = t,
       model = or_else (map_of rmDeviceTypes t) (map_of rmPlusDeviceTypes t),
       count = initial_count r,
       sweepHandler = None, confirmHandler = None,
       key = initial_key, iv = initial_iv, id_buf = [0, 0, 0, 0],
       capabilites_RF = (map_of rmPlusDeviceTypes t \<noteq> None),
       listeners = [], timers = [], next_timer = 0,
       sweep_promises = [], confirm_promises = [],
       sent = [], console = [], emitted = [] \<rparr>"

subsection \<open>The send path\<close>

definition sendPacket :: "block_cipher \<Rightarrow> int \<Rightarrow> buffer \<Rightarrow> BroadlinkDevice \<Rightarrow> BroadlinkDevice" where
  "sendPacket E command payload d =
     (let count' = (count d + 1) AND 0xffff;
          packet = alloc 0x38;
          packet = store packet 0x00 0x5a;
          packet = store packet 0x01 0xa5;
          packet = store packet 0x02 0xaa;
          packet = store packet 0x03 0x55;
          packet = store packet 0x04 0x5a;
          packet = store packet 0x05 0xa5;
          packet = store packet 0x06 0xaa;
          packet = store packet 0x07 0x55;
          packet = store packet 0x24 0x2a;
          packet = store packet 0x25 0x27;
          packet = store packet 0x26 command;
          packet = store packet 0x28 (count' AND 0xff);
          packet = store packet 0x29 (drop_bit 8 count');
          packet = store packet 0x2a (num (load (mac d) 5));
          packet = store packet 0x2b (num (load (mac d) 4));
          packet = store packet 0x2c (num (load (mac d) 3));
          packet = store packet 0x2d (num (load (mac d) 2));
          packet = store packet 0x2e (num (load (mac d) 1));
          packet = store packet 0x2f (num (load (mac d) 0));
          packet = store packet 0x30 (num (load (id_buf d) 0));
          packet = store packet 0x31 (num (load (id_buf d) 1));
          packet = store packet 0x32 (num (load (id_buf d) 2));
          packet = store packet 0x33 (num (load (id_buf d) 3));
          checksum = checksum_masked payload;
          payload' = cipher_update E (key d) (iv d) payload;
          packet = store packet 0x34 (checksum AND 0xff);
          packet = store packet 0x35 (drop_bit 8 checksum);
          packet = packet @ payload';
          checksum = checksum_masked packet;
          packet = store packet 0x20 (checksum AND 0xff);
          packet = store packet 0x21 (drop_bit 8 checksum)
      in d\<lparr>count := count', sent := sent d @ [packet]\<rparr>)"

definition authenticate :: "block_cipher \<Rightarrow> BroadlinkDevice \<Rightarrow> BroadlinkDevice" where
  "authenticate E d =
     (let payload = alloc 0x50;
          payload = store payload 0x04 0x31;
          payload = store payload 0x05 0x31;
          payload = store payload 0x06 0x31;
          payload = store payload 0x07 0x31;
          payload = store payload 0x08 0x31;
          payload = store payload 0x09 0x31;
          payload = store payload 0x0a 0x31;
          payload = store payload 0x0b 0x31;
          payload = store payload 0x0c 0x31;
          payload = store payload 0x0d 0x31;
          payload = store payload 0x0e 0x31;
          payload = store payload 0x0f 0x31;
          payload = store payload 0x10 0x31;
          payload = store payload 0x11 0x31;
          payload = store payload 0x12 0x31;
          payload = store payload 0x1e 0x01;
          payload = store payload 0x2d 0x01;
          payload = store payload 0x30 0x54;
          payload = store payload 0x31 0x65;
          payload = store payload 0x32 0x73;
          payload = store payload 0x33 0x74;
          payload = store payload 0x34 0x20;
          payload = store payload 0x35 0x20;
          payload = store payload 0x36 0x31
      in sendPacket E 0x65 payload d)"

subsection \<open>Commands\<close>


definition sendData :: "block_cipher \<Rightarrow> buffer \<Rightarrow> BroadlinkDevice \<Rightarrow> BroadlinkDevice" where
  "sendData E data d =
     (let packet = [0x02, 0x00, 0x00, 0x00]; packet = packet @ data in sendPacket E 0x6a packet d)"




definition enterRFSweep :: "block_cipher \<Rightarrow> BroadlinkDevice \<Rightarrow> BroadlinkDevice" where
  "enterRFSweep E d =
     (if \<not> capabilites_RF d then log_line NoRFCapabilities d
      else
        let d = log_line LongPressPrompt d;
            packet = alloc 16;
            packet = store packet 0 0x19
        in sendPacket E 0x6a packet d)"

definition cancelRFSweep :: "block_cipher \<Rightarrow> BroadlinkDevice \<Rightarrow> BroadlinkDevice" where
  "cancelRFSweep E d =
     (if \<not> capabilites_RF d then log_line NoRFCapabilities d
      else
        let packet = alloc 16;
            packet = store packet 0 0x1e
        in sendPacket E 0x6a packet d)"

definition findRFPacket :: "block_cipher \<Rightarrow> BroadlinkDevice \<Rightarrow> BroadlinkDevice" where
  "findRFPacket E d =
     (if \<not> capabilites_RF d then log_line NoRFCapabilities d
      else
        let d = log_line ShortPressPrompt d;
            packet = alloc 16;
            packet = store packet 0 0x1b
        in sendPacket E 0x6a packet d)"

definition checkRFSweep :: "block_cipher \<Rightarrow> BroadlinkDevice \<Rightarrow> BroadlinkDevice" where
  "checkRFSweep E d =
     (if \<not> capabilites_RF d then log_line NoRFCapabilities d
      else
        let packet = alloc 16;
            packet = store packet 0 0x1a
        in sendPacket E 0x6a packet d)"

subsection \<open>Promises, timers and listeners\<close>

text \<open>
  A promise is settled by the first call of its \<open>resolve\<close> or \<open>reject\<close>; JavaScript
  ignores every later call.
\<close>

definition settle :: "'a promise \<Rightarrow> 'a promise \<Rightarrow> 'a promise" where
  "settle p v = (case p of Pending \<Rightarrow> v | Fulfilled x \<Rightarrow> Fulfilled x | Rejected r \<Rightarrow> Rejected r)"

definition settle_sweep :: "nat \<Rightarrow> unit promise \<Rightarrow> BroadlinkDevice \<Rightarrow> BroadlinkDevice" where
  "settle_sweep p v d =
     d\<lparr>sweep_promises := (sweep_promises d)[p := settle (sweep_promises d ! p) v]\<rparr>"

definition settle_confirm :: "nat \<Rightarrow> buffer promise \<Rightarrow> BroadlinkDevice \<Rightarrow> BroadlinkDevice" where
  "settle_confirm p v d =
     d\<lparr>confirm_promises := (confirm_promises d)[p := settle (confirm_promises d ! p) v]\<rparr>"


definition clearTimeout :: "nat \<Rightarrow> BroadlinkDevice \<Rightarrow> BroadlinkDevice" where
  "clearTimeout t d = d\<lparr>timers := filter (\<lambda>x. fst x \<noteq> t) (timers d)\<rparr>"

definition on :: "listener \<Rightarrow> BroadlinkDevice \<Rightarrow> BroadlinkDevice" where
  "on l d = d\<lparr>listeners := listeners d @ [l]\<rparr>"

text \<open>
  One registered listener called with an event. A listener of another event is not
  called. \<open>ReadyRelay\<close> re-emits on the discovery engine's emitter, whose listeners are
  the integrator's; it changes nothing of the session.
\<close>

definition run_listener :: "event \<Rightarrow> listener \<Rightarrow> BroadlinkDevice \<Rightarrow> BroadlinkDevice" where
  "run_listener ev l d =
     (case (ev, l) of
        (Sweep success, SweepListener p sweepTimeout) \<Rightarrow>
          (let d = clearTimeout sweepTimeout d;
               d = d\<lparr>sweepHandler := None\<rparr>
           in if \<not> success then settle_sweep p (Rejected ''The RF sweep was not successful'') d
              else settle_sweep p (Fulfilled ()) d)
      | (Data buf, DataListener p dataTimeout) \<Rightarrow>
          (let d = clearTimeout dataTimeout d;
               d = d\<lparr>confirmHandler := None\<rparr>
           in settle_confirm p (Fulfilled buf) d)
      | _ \<Rightarrow> d)"

definition emit :: "event \<Rightarrow> BroadlinkDevice \<Rightarrow> BroadlinkDevice" where
  "emit ev d = fold (run_listener ev) (listeners d) (d\<lparr>emitted := emitted d @ [ev]\<rparr>)"

subsection \<open>The receive path\<close>

definition then_do :: "'e + 'a \<Rightarrow> ('a \<Rightarrow> 'e + 'b) \<Rightarrow> 'e + 'b" where
  "then_do r f = (case r of Inl e \<Rightarrow> Inl e | Inr x \<Rightarrow> f x)"

definition onPayloadReceived :: "int \<Rightarrow> buffer \<Rightarrow> BroadlinkDevice \<Rightarrow> js_error + BroadlinkDevice" where
  "onPayloadReceived err payload d =
     (let param = load payload 0 in
      if length payload < 4 then Inl RangeError
      else
        then_do (copy payload (alloc (length payload - 4)) 0 4 None) (\<lambda>data.
          if param = Some 1 then
            (let temp = (case (load payload 0x4, load payload 0x5) of
                           (Some a, Some b) \<Rightarrow> Some ((real_of_int a * 10 + real_of_int b) / 10)
                         | _ \<Rightarrow> None)
             in Inr (emit (Temperature temp) d))
          else if param = Some 4 then
            then_do (copy payload (alloc (length payload - 4)) 0 4 None) (\<lambda>data.
              Inr (emit (Data data) d))
          else if param = Some 26 then
            then_do (copy payload (alloc 1) 0 0x4 None) (\<lambda>data.
              Inr (emit (Sweep (load data 0 = Some 1)) d))
          else if param = Some 27 then
            then_do (copy payload (alloc 1) 0 0x4 None) (\<lambda>data.
              Inr (emit (RfData data) d))
          else Inr d))"

text \<open>
  The handler \<open>listen\<close> attaches to the socket's \<open>message\<close> event. \<open>Buffer.alloc\<close> of a
  negative size throws; a buffer is never falsy, so the test \<open>!payload\<close> never holds.
\<close>

definition listen_message :: "block_cipher \<Rightarrow> buffer \<Rightarrow> BroadlinkDevice \<Rightarrow> js_error + BroadlinkDevice" where
  "listen_message D response d =
     (if length response < 0x38 then Inl RangeError
      else
        then_do (copy response (alloc (length response - 0x38)) 0 0x38 None) (\<lambda>encryptedPayload.
          let err = num (load response 0x22) OR push_bit 8 (num (load response 0x23)) in
          if err \<noteq> 0 then Inr (emit (DataError err) d)
          else
            then_do (decipher_all D (key d) (iv d) encryptedPayload) (\<lambda>payload.
              let command = load response 0x26 in
              if command = Some 0xe9 then
                then_do (copy payload (alloc 0x10) 0 0x04 (Some 0x14)) (\<lambda>k.
                  then_do (copy payload (alloc 0x04) 0 0x00 (Some 0x04)) (\<lambda>i.
                    Inr (emit DeviceReady (d\<lparr>key := k, id_buf := i\<rparr>))))
              else if command = Some 0xee \<or> command = Some 0xef then
                onPayloadReceived err payload d
              else
                (case command of
                   None \<Rightarrow> Inl TypeError
                 | Some c \<Rightarrow> Inr (log_line (UnknownCommand c) d)))))"

subsection \<open>The RF learning sequences\<close>





section \<open>The discovery engine\<close>

text \<open>
  What \<open>onListening\<close> reads from its environment: the fields of \<open>new Date()\<close>, the
  numbers \<open>parseInt\<close> gives for the parts of the dotted address (\<open>None\<close> where it gives
  \<open>NaN\<close>) and the port the socket is bound to.
\<close>

record Date =
  timezoneOffset :: int
  fullYear :: int
  minutes :: int
  hours :: int
  day :: int
  date :: int
  month :: int

datatype discovery_log =
    Listening "int option list" int
  | Discovered string int
  | IgnoringUnsupportedName "string option" RemoteInfo
  | IgnoringUnsupported int RemoteInfo
  | IgnoringUnknown int RemoteInfo
  | Found "string option" RemoteInfo

definition store_real :: "buffer \<Rightarrow> nat \<Rightarrow> real \<Rightarrow> buffer" where
  "store_real buf i r = buf[i := word_of_int (trunc r)]"

definition part :: "int option list \<Rightarrow> nat \<Rightarrow> int" where
  "part xs i = (if i < length xs then num (xs ! i) else 0)"

text \<open>The remainder \<open>%\<close> of JavaScript takes the sign of the dividend.\<close>

definition js_rem :: "int \<Rightarrow> int \<Rightarrow> int" where
  "js_rem a b = sgn a * (\<bar>a\<bar> mod \<bar>b\<bar>)"

text \<open>\<open>onListening\<close>, as the datagram it broadcasts to port 80.\<close>

definition onListening :: "Date \<Rightarrow> int option list \<Rightarrow> int \<Rightarrow> buffer" where
  "onListening now splitIPAddress socket_port =
     (let timezone = real_of_int (timezoneOffset now) / (- 3600);
          packet = alloc 0x30;
          year = fullYear now - 1900;
          packet =
            (if timezone < 0 then
               (let packet = store_real packet 0x08 (0xff + timezone - 1);
                    packet = store packet 0x09 0xff;
                    packet = store packet 0x0a 0xff;
                    packet = store packet 0x0b 0xff
                in packet)
             else
               (let packet = store_real packet 0x08 timezone;
                    packet = store packet 0x09 0;
                    packet = store packet 0x0a 0;
                    packet = store packet 0x0b 0
                in packet));
          packet = store packet 0x0c (year AND 0xff);
          packet = store packet 0x0d (drop_bit 8 year);
          packet = store packet 0x0e (minutes now);
          packet = store packet 0x0f (hours now);
          subyear = js_rem year 100;
          packet = store packet 0x10 subyear;
          packet = store packet 0x11 (day now);
          packet = store packet 0x12 (date now);
          packet = store packet 0x13 (month now);
          packet = store packet 0x18 (part splitIPAddress 0);
          packet = store packet 0x19 (part splitIPAddress 1);
          packet = store packet 0x1a (part splitIPAddress 2);
          packet = store packet 0x1b (part splitIPAddress 3);
          packet = store packet 0x1c (socket_port AND 0xff);
          packet = store packet 0x1d (drop_bit 8 socket_port);
          packet = store packet 0x26 6;
          checksum = checksum_once packet;
          packet = store packet 0x20 (checksum AND 0xff);
          packet = store packet 0x21 (drop_bit 8 checksum)
      in packet)"

text \<open>
  The registry \<open>devices\<close> holds references to the sessions; a reference is the index of
  the session among the sessions the engine has created.
\<close>

record Broadlink =
  devices :: "string \<rightharpoonup> nat"
  sessions :: "BroadlinkDevice list"
  engine_console :: "discovery_log list"

definition new_Broadlink :: Broadlink where
  "new_Broadlink = \<lparr> devices = Map.empty, sessions = [], engine_console = [] \<rparr>"

definition engine_log :: "discovery_log \<Rightarrow> Broadlink \<Rightarrow> Broadlink" where
  "engine_log msg b = b\<lparr>engine_console := engine_console b @ [msg]\<rparr>"

text \<open>
  \<open>addDevice\<close> of the library (\<open>src/unnamed/part_000\<close>); \<open>r\<close> is the draw of
  \<open>Math.random()\<close> in the constructor of the session. In the branch of the unsupported
  table the source builds the text of the line and drops it: nothing is logged.
\<close>

definition addDevice :: "block_cipher \<Rightarrow> real \<Rightarrow> RemoteInfo \<Rightarrow> buffer \<Rightarrow> int \<Rightarrow> Broadlink \<Rightarrow> Broadlink" where
  "addDevice E r h m deviceType b =
     (if devices b (to_hex m) \<noteq> None then b
      else if map_of unsupportedDeviceTypes deviceType \<noteq> None then b
      else if deviceType \<ge> 0x7530 \<and> deviceType \<le> 0x7918 then
        engine_log (IgnoringUnsupported deviceType h) b
      else if map_of rmDeviceTypes deviceType = None \<and> map_of rmPlusDeviceTypes deviceType = None then
        engine_log (IgnoringUnknown deviceType h) b
      else
        let device = new_BroadlinkDevice h m deviceType r;
            b = b\<lparr>devices := (devices b)(to_hex m \<mapsto> length (sessions b))\<rparr>;
            b = engine_log (Found (model device) h) b;
            device = on ReadyRelay device;
            device = authenticate E device
        in b\<lparr>sessions := sessions b @ [device]\<rparr>)"

text \<open>
  \<open>addDevice\<close> of \<open>src/src/index.ts\<close>: the registry is keyed by the address text it is
  given, the test of the two supported tables is a disjunction, and the creation of the
  session is commented out.
\<close>

definition addDevice_index_ts :: "RemoteInfo \<Rightarrow> string \<Rightarrow> int \<Rightarrow> Broadlink \<Rightarrow> Broadlink" where
  "addDevice_index_ts h macAddress deviceType b =
     (if devices b macAddress \<noteq> None then b
      else if map_of unsupportedDeviceTypes deviceType \<noteq> None then
        engine_log (IgnoringUnsupportedName (map_of unsupportedDeviceTypes deviceType) h) b
      else if deviceType \<ge> 0x7530 \<and> deviceType \<le> 0x7918 then
        engine_log (IgnoringUnsupported deviceType h) b
      else if map_of rmDeviceTypes deviceType = None \<or> map_of rmPlusDeviceTypes deviceType = None then
        engine_log (IgnoringUnknown deviceType h) b
      else
        let deviceName = or_else (map_of rmDeviceTypes deviceType) (map_of rmPlusDeviceTypes deviceType)
        in engine_log (Found deviceName h) b)"

text \<open>The six copies of \<open>onMessage\<close> that assemble the identity of the sender.\<close>

definition macAddressBuffer :: "buffer \<Rightarrow> js_error + buffer" where
  "macAddressBuffer message =
     then_do (copy message (alloc 6) 0x00 0x3D None) (\<lambda>m.
     then_do (copy message m 0x01 0x3E None) (\<lambda>m.
     then_do (copy message m 0x02 0x3F None) (\<lambda>m.
     then_do (copy message m 0x03 0x3C None) (\<lambda>m.
     then_do (copy message m 0x04 0x3B None) (\<lambda>m.
     copy message m 0x05 0x3A None)))))"

definition onMessage :: "block_cipher \<Rightarrow> real \<Rightarrow> buffer \<Rightarrow> RemoteInfo \<Rightarrow> Broadlink \<Rightarrow> js_error + Broadlink" where
  "onMessage E r message h b =
     then_do (macAddressBuffer message) (\<lambda>m.
       let macAddress = to_hex m in
       if devices b macAddress \<noteq> None then Inr b
       else
         let deviceType = num (load message 0x34) OR push_bit 8 (num (load message 0x35));
             b = engine_log (Discovered macAddress deviceType) b
         in Inr (addDevice E r h m deviceType b))"

text \<open>
  A run of the engine over the replies it receives, each with the draw its session
  would take; an exception ends the run.
\<close>

fun run_replies :: "block_cipher \<Rightarrow> (real \<times> buffer \<times> RemoteInfo) list \<Rightarrow> Broadlink \<Rightarrow> js_error + Broadlink" where
  "run_replies E [] b = Inr b"
| "run_replies E ((r, message, h) # rs) b = then_do (onMessage E r message h b) (run_replies E rs)"

section \<open>Reference definitions in the words of the specification\<close>

text \<open>
  The wraparound checksum: the seed \<open>0xBEAF\<close> plus the sum of the bytes, modulo
  \<open>2^16\<close>; the checksum field of a packet is its bytes \<open>0x20\<close> and \<open>0x21\<close>, little-endian.
\<close>

definition wraparound_checksum :: "buffer \<Rightarrow> int" where
  "wraparound_checksum buf = (0xBEAF + sum_list (map uint buf)) mod 65536"

definition zero_checksum_field :: "buffer \<Rightarrow> buffer" where
  "zero_checksum_field buf = buf[0x20 := 0, 0x21 := 0]"

definition stored_checksum :: "buffer \<Rightarrow> int" where
  "stored_checksum buf = uint (buf ! 0x20) + 256 * uint (buf ! 0x21)"

section \<open>Runs of a session\<close>




text \<open>
  The listeners of the integrator are functions of its own and not part of the session
  record. \<open>emit\<close> calls the listeners that are registered when it begins, in the order
  of their registration, so a listener the integrator registered after the first \<open>k\<close>
  listeners of the library runs after these and before the others. This is such a
  dispatch; \<open>body\<close> is what the listener of the integrator does with the session, with
  the value it obtains. With a listener that does nothing it is \<open>emit\<close>.
\<close>

definition emit_integrator ::
  "event \<Rightarrow> nat \<Rightarrow> (BroadlinkDevice \<Rightarrow> 'a \<times> BroadlinkDevice) \<Rightarrow> BroadlinkDevice \<Rightarrow> 'a \<times> BroadlinkDevice" where
  "emit_integrator ev k body d =
     (let ls = listeners d;
          d = d\<lparr>emitted := emitted d @ [ev]\<rparr>;
          d = fold (run_listener ev) (take k ls) d;
          (x, d) = body d;
          d = fold (run_listener ev) (drop k ls) d
      in (x, d))"










section \<open>Runs and concrete inputs\<close>

text \<open>A session sending a list of packets, one after the other.\<close>

fun send_all :: "block_cipher \<Rightarrow> (int \<times> buffer) list \<Rightarrow> BroadlinkDevice \<Rightarrow> BroadlinkDevice" where
  "send_all E [] d = d"
| "send_all E ((command, payload) # ps) d = send_all E ps (sendPacket E command payload d)"

text \<open>
  What the model asks of the block function: it maps a 16-byte key and a 16-byte block
  to a 16-byte block. \<open>createCipheriv\<close> throws for a key or an initialization vector of
  another size, so the theorems about the send path assume both are 16 bytes long; the
  constructor and the handshake handler only ever store 16-byte keys.
\<close>

definition aes_block :: "block_cipher \<Rightarrow> bool" where
  "aes_block E = (\<forall>k b. length k = 16 \<longrightarrow> length b = 16 \<longrightarrow> length (E k b) = 16)"

text \<open>
  Concrete inputs for evaluating the model: a block function that returns the block
  as it is, an RF-capable session and a session without RF.
\<close>

definition plain_cipher :: block_cipher where
  "plain_cipher k b = b"

definition dev0 :: BroadlinkDevice where
  "dev0 = new_BroadlinkDevice \<lparr>address = ''192.168.1.20'', port = 80\<rparr> [1, 2, 3, 4, 5, 6] 0x272a (1 / 2)"

definition dev1 :: BroadlinkDevice where
  "dev1 = new_BroadlinkDevice \<lparr>address = ''192.168.1.21'', port = 80\<rparr> [6, 5, 4, 3, 2, 1] 0x2737 (1 / 4)"



text \<open>
  The session \<open>addDevice\<close> creates for an accepted reply: constructed, given the relay
  listener and authenticated.
\<close>

definition new_session :: "block_cipher \<Rightarrow> real \<Rightarrow> RemoteInfo \<Rightarrow> buffer \<Rightarrow> int \<Rightarrow> BroadlinkDevice" where
  "new_session E r h m t = authenticate E (on ReadyRelay (new_BroadlinkDevice h m t r))"

text \<open>
  The registry and the sessions agree: every session the engine has created is
  registered under the text of its identity.
\<close>

definition registry_ok :: "Broadlink \<Rightarrow> bool" where
  "registry_ok b = (\<forall>i < length (sessions b). devices b (to_hex (mac (sessions b ! i))) = Some i)"

text \<open>
  A discovery reply of 64 bytes from an RF-capable device (type \<open>0x272a\<close> at offset
  \<open>0x34\<close>, identity bytes at offsets \<open>0x3a\<close> to \<open>0x3f\<close>) and its sender.
\<close>

definition host0 :: RemoteInfo where
  "host0 = \<lparr>address = ''192.168.1.20'', port = 80\<rparr>"

definition discovery_reply0 :: buffer where
  "discovery_reply0 =
     store (store (alloc 0x34) 0 0x5a @ [0x2a, 0x27] @ alloc 4 @ [6, 5, 4, 3, 2, 1]) 1 0xa5"

text \<open>
  A handshake reply: a header with command byte \<open>0xe9\<close> and no error code, followed by
  two blocks of ciphertext; and the payload \<open>plain_cipher\<close> decrypts it to under the
  initial key and initialization vector.
\<close>

definition handshake_reply0 :: buffer where
  "handshake_reply0 = store (alloc 0x38) 0x26 0xe9 @ map word_of_nat [1 ..< 33]"

definition handshake_payload0 :: buffer where
  "handshake_payload0 =
     [87, 44, 20, 157, 104, 15, 58, 32, 212, 185, 177, 101, 87, 32, 96, 72,
      16, 16, 16, 16, 16, 16, 16, 16, 16, 16, 16, 16, 16, 16, 16, 48]"

section \<open>Arithmetic of bytes and masks\<close>

lemma and_ffff: "(x::int) AND 0xffff = x mod 65536"
  using take_bit_eq_mask[of 16 x] by (simp add: take_bit_eq_mod mask_eq_exp_minus_1)

lemma and_ff: "(x::int) AND 0xff = x mod 256"
  using take_bit_eq_mask[of 8 x] by (simp add: take_bit_eq_mod mask_eq_exp_minus_1)

lemma initial_count_zero: "0 \<le> r \<Longrightarrow> r < 1 \<Longrightarrow> initial_count r = 0"
proof -
  assume "0 \<le> r" "r < 1"
  then have "\<lfloor>r\<rfloor> = 0" by linarith
  then show ?thesis using \<open>0 \<le> r\<close> by (simp add: initial_count_def to_int32_def trunc_def)
qed

section \<open>Buffers\<close>

lemma length_store: "length (store buf i v) = length buf"
  by (simp add: store_def)

lemma length_alloc: "length (alloc n) = n"
  by (simp add: alloc_def)

lemma nth_alloc: "i < n \<Longrightarrow> alloc n ! i = 0"
  by (simp add: alloc_def)

lemma nth_store_neq: "i \<noteq> j \<Longrightarrow> store buf j v ! i = buf ! i"
  by (simp add: store_def)

lemma nth_store_eq: "i < length buf \<Longrightarrow> store buf i v ! i = word_of_int v"
  by (simp add: store_def)

lemma uint_byte_of_int: "uint (word_of_int v :: byte) = v mod 256"
  by (simp add: uint_word_of_int)

lemma le_bytes:
  assumes "0 \<le> c" "c < 65536"
  shows "uint (word_of_int (c AND 0xff) :: byte) + 256 * uint (word_of_int (drop_bit 8 c) :: byte) = c"
proof -
  have "c div 256 < 256" using assms by simp
  moreover have "0 \<le> c div 256" using assms by simp
  ultimately have "(c div 256) mod 256 = c div 256" by simp
  then show ?thesis
    by (simp add: uint_byte_of_int and_ff drop_bit_eq_div)
qed

lemma fold_masked_mod:
  "fold (\<lambda>b c. (c + uint b) AND 0xffff) buf s mod 65536 = (s + sum_list (map uint buf)) mod 65536"
proof (induction buf arbitrary: s)
  case Nil
  then show ?case by simp
next
  case (Cons a buf)
  have "fold (\<lambda>b c. (c + uint b) AND 0xffff) buf ((s + uint a) AND 0xffff) mod 65536
      = (((s + uint a) AND 0xffff) + sum_list (map uint buf)) mod 65536"
    by (rule Cons.IH)
  also have "\<dots> = (s + uint a + sum_list (map uint buf)) mod 65536"
    unfolding and_ffff by (simp add: mod_simps)
  finally show ?case by (simp add: algebra_simps)
qed

lemma fold_masked_range:
  "0 \<le> s \<Longrightarrow> s < 65536 \<Longrightarrow>
   0 \<le> fold (\<lambda>b c. (c + uint b) AND 0xffff) buf s \<and> fold (\<lambda>b c. (c + uint b) AND 0xffff) buf s < 65536"
  by (induction buf arbitrary: s) (simp_all add: and_ffff)

lemma checksum_masked_range: "0 \<le> checksum_masked buf \<and> checksum_masked buf < 65536"
  unfolding checksum_masked_def by (rule fold_masked_range) simp_all

lemma checksum_masked_eq: "checksum_masked buf = wraparound_checksum buf"
proof -
  have "checksum_masked buf = checksum_masked buf mod 65536"
    using checksum_masked_range [of buf] by simp
  also have "\<dots> = wraparound_checksum buf"
    by (simp add: checksum_masked_def wraparound_checksum_def fold_masked_mod)
  finally show ?thesis .
qed

lemma fold_plain: "fold (\<lambda>b c. c + uint b) buf s = s + sum_list (map uint buf)"
  by (induction buf arbitrary: s) simp_all

lemma checksum_once_eq: "checksum_once buf = wraparound_checksum buf"
  by (simp add: checksum_once_def wraparound_checksum_def fold_plain and_ffff)

lemma wraparound_checksum_range: "0 \<le> wraparound_checksum buf \<and> wraparound_checksum buf < 65536"
  by (simp add: wraparound_checksum_def)

lemma checksum_field_roundtrip:
  assumes "0x21 < length P" "P ! 0x20 = 0" "P ! 0x21 = 0" "0 \<le> c" "c < 65536"
  shows "zero_checksum_field (store (store P 0x20 (c AND 0xff)) 0x21 (drop_bit 8 c)) = P
       \<and> stored_checksum (store (store P 0x20 (c AND 0xff)) 0x21 (drop_bit 8 c)) = c"
proof -
  have "P[0x20 := 0, 0x21 := 0] = P"
    using assms(2,3) by (metis list_update_id)
  moreover have "(store (store P 0x20 (c AND 0xff)) 0x21 (drop_bit 8 c))[0x20 := 0, 0x21 := 0]
      = P[0x20 := 0, 0x21 := 0]"
    by (simp add: store_def list_update_swap)
  ultimately have z: "zero_checksum_field (store (store P 0x20 (c AND 0xff)) 0x21 (drop_bit 8 c)) = P"
    by (simp add: zero_checksum_field_def)
  have "stored_checksum (store (store P 0x20 (c AND 0xff)) 0x21 (drop_bit 8 c))
      = uint (word_of_int (c AND 0xff) :: byte) + 256 * uint (word_of_int (drop_bit 8 c) :: byte)"
    using assms(1) by (simp add: stored_checksum_def store_def)
  with le_bytes [OF assms(4,5)] z show ?thesis by simp
qed

lemmas buf = length_store length_alloc nth_alloc nth_store_neq nth_store_eq nth_append

lemma counter_bytes:
  "uint (word_of_int ((x mod 65536) AND 255) :: byte)
     + 256 * uint (word_of_int (drop_bit 8 x AND 255) :: byte) = x mod 65536"
proof -
  have "x mod 65536 = 256 * ((x div 256) mod 256) + x mod 256"
    using zmod_zmult2_eq [of 256 x 256] by simp
  moreover have "x mod 65536 mod 256 = x mod 256"
    by (simp add: mod_mod_cancel)
  ultimately show ?thesis
    by (simp add: uint_byte_of_int and_ff drop_bit_eq_div)
qed

lemma copy_result_length: "copy source target ts ss se = Inr r \<Longrightarrow> length r = length target"
  by (auto simp: copy_def Let_def split: if_splits)

lemma copy_nth:
  assumes "ss \<le> length src"
  shows "\<exists>r. copy src tgt ts ss None = Inr r \<and> length r = length tgt
          \<and> (\<forall>i < length tgt. r ! i
                = (if ts \<le> i \<and> i - ts < length src - ss then src ! (ss + (i - ts)) else tgt ! i))"
proof (cases "ts \<ge> length tgt \<or> ss \<ge> length src")
  case True
  then have "copy src tgt ts ss None = Inr tgt"
    using assms by (simp add: copy_def)
  then show ?thesis using True by auto
next
  case False
  define nb where "nb = min (length tgt - ts) (length src - ss)"
  have c: "copy src tgt ts ss None = Inr (take ts tgt @ take nb (drop ss src) @ drop (ts + nb) tgt)"
    using False by (simp add: copy_def Let_def nb_def min_def)
  have l: "length (take ts tgt @ take nb (drop ss src) @ drop (ts + nb) tgt) = length tgt"
    using False by (auto simp: nb_def min_def)
  have n: "(take ts tgt @ take nb (drop ss src) @ drop (ts + nb) tgt) ! i
      = (if ts \<le> i \<and> i - ts < length src - ss then src ! (ss + (i - ts)) else tgt ! i)"
    if "i < length tgt" for i
    using that False by (auto simp: nth_append nb_def min_def)
  show ?thesis
    unfolding c using l n by simp
qed

section \<open>The send path\<close>

lemma sendPacket_count: "count (sendPacket E command payload d) = (count d + 1) mod 65536"
  by (simp add: sendPacket_def Let_def and_ffff)

lemma send_all_count:
  "ps \<noteq> [] \<Longrightarrow> count (send_all E ps d) = (count d + int (length ps)) mod 65536"
proof (induction ps arbitrary: d)
  case Nil
  then show ?case by simp
next
  case (Cons a ps)
  obtain c p where a: "a = (c, p)" by (cases a)
  show ?case
  proof (cases "ps = []")
    case True
    then show ?thesis by (simp add: a sendPacket_count)
  next
    case False
    then have "count (send_all E ps (sendPacket E c p d)) =
        (count (sendPacket E c p d) + int (length ps)) mod 65536"
      using Cons.IH by blast
    then show ?thesis
      by (simp add: a sendPacket_count mod_simps algebra_simps)
  qed
qed

lemma sendPacket_sent:
  "\<exists>P. sent (sendPacket E command payload d)
        = sent d @ [store (store P 0x20 (checksum_masked P AND 0xff)) 0x21 (drop_bit 8 (checksum_masked P))]
      \<and> 0x21 < length P \<and> P ! 0x20 = 0 \<and> P ! 0x21 = 0
      \<and> drop 0x38 P = cipher_update E (key d) (iv d) payload
      \<and> length P = 0x38 + length (cipher_update E (key d) (iv d) payload)
      \<and> uint (P ! 0x28) + 256 * uint (P ! 0x29) = (count d + 1) mod 65536"
  unfolding sendPacket_def Let_def
  apply (rule exI)
  apply (intro conjI)
        apply (simp)
       apply (simp_all add: buf)
  apply (simp add: and_ffff counter_bytes)
  done

lemma length_xor_block: "length (xor_block a b) = min (length a) (length b)"
  by (simp add: xor_block_def)

lemma length_cbc_encrypt:
  "aes_block E \<Longrightarrow> length k = 16 \<Longrightarrow> length prev = 16 \<Longrightarrow> 16 * n \<le> length data \<Longrightarrow>
   length (cbc_encrypt E k prev n data) = 16 * n"
proof (induction n arbitrary: prev data)
  case 0
  then show ?case by simp
next
  case (Suc n)
  have b: "length (xor_block prev (take 16 data)) = 16"
    using Suc.prems by (simp add: length_xor_block)
  have c: "length (E k (xor_block prev (take 16 data))) = 16"
    using Suc.prems(1,2) b by (simp add: aes_block_def)
  have "length (cbc_encrypt E k (E k (xor_block prev (take 16 data))) n (drop 16 data)) = 16 * n"
    by (rule Suc.IH) (use Suc.prems c in simp_all)
  with c show ?case by (simp add: Let_def)
qed

lemma length_cipher_update:
  "aes_block E \<Longrightarrow> length k = 16 \<Longrightarrow> length v = 16 \<Longrightarrow>
   length (cipher_update E k v data) = 16 * (length data div 16)"
  unfolding cipher_update_def by (rule length_cbc_encrypt) simp_all

lemma cbc_encrypt_take:
  "16 * n \<le> m \<Longrightarrow> cbc_encrypt E k prev n (take m data) = cbc_encrypt E k prev n data"
proof (induction n arbitrary: prev data m)
  case 0
  then show ?case by simp
next
  case (Suc n)
  have t: "take 16 (take m data) = take 16 data"
    using Suc.prems by (simp add: min_def)
  have m16: "min 16 m = 16"
    using Suc.prems by simp
  have d: "drop 16 (take m data) = take (m - 16) (drop 16 data)"
    by (simp add: drop_take)
  have "cbc_encrypt E k (E k (xor_block prev (take 16 data))) n (take (m - 16) (drop 16 data))
      = cbc_encrypt E k (E k (xor_block prev (take 16 data))) n (drop 16 data)"
    by (rule Suc.IH) (use Suc.prems in simp)
  then show ?case by (simp add: Let_def t d m16)
qed

lemma cipher_update_take:
  "cipher_update E k v (take (16 * (length data div 16)) data) = cipher_update E k v data"
proof -
  have "length (take (16 * (length data div 16)) data) div 16 = length data div 16"
    by (simp add: min_def)
  then show ?thesis
    by (simp add: cipher_update_def cbc_encrypt_take)
qed

lemma last_sent_sendPacket:
  "\<exists>P. last (sent (sendPacket E command payload d))
        = store (store P 0x20 (checksum_masked P AND 0xff)) 0x21 (drop_bit 8 (checksum_masked P))
      \<and> 0x21 < length P \<and> P ! 0x20 = 0 \<and> P ! 0x21 = 0
      \<and> drop 0x38 P = cipher_update E (key d) (iv d) payload
      \<and> length P = 0x38 + length (cipher_update E (key d) (iv d) payload)
      \<and> uint (P ! 0x28) + 256 * uint (P ! 0x29) = (count d + 1) mod 65536"
  using sendPacket_sent [of E command payload d] by auto

lemma sendPacket_packet_counter:
  "uint (last (sent (sendPacket E command payload d)) ! 0x28)
     + 256 * uint (last (sent (sendPacket E command payload d)) ! 0x29) = (count d + 1) mod 65536"
proof -
  obtain P where P: "last (sent (sendPacket E command payload d))
        = store (store P 0x20 (checksum_masked P AND 0xff)) 0x21 (drop_bit 8 (checksum_masked P))"
      "uint (P ! 0x28) + 256 * uint (P ! 0x29) = (count d + 1) mod 65536"
    using last_sent_sendPacket [of E command payload d] by blast
  show ?thesis unfolding P(1) using P(2) by (simp add: nth_store_neq)
qed

lemma sendPacket_checksum:
  "wraparound_checksum (zero_checksum_field (last (sent (sendPacket E command payload d))))
     = stored_checksum (last (sent (sendPacket E command payload d)))"
proof -
  obtain P where P: "last (sent (sendPacket E command payload d))
        = store (store P 0x20 (checksum_masked P AND 0xff)) 0x21 (drop_bit 8 (checksum_masked P))"
      "0x21 < length P" "P ! 0x20 = 0" "P ! 0x21 = 0"
    using last_sent_sendPacket [of E command payload d] by blast
  have "0 \<le> checksum_masked P" "checksum_masked P < 65536"
    using checksum_masked_range [of P] by simp_all
  from checksum_field_roundtrip [OF P(2,3,4) this]
  show ?thesis unfolding P(1) by (simp add: checksum_masked_eq)
qed

lemma nth_store_real_neq: "i \<noteq> j \<Longrightarrow> store_real buf j v ! i = buf ! i"
  by (simp add: store_real_def)

lemma length_store_real: "length (store_real buf i v) = length buf"
  by (simp add: store_real_def)

lemma onListening_shape:
  "\<exists>P. onListening now ip p
        = store (store P 0x20 (checksum_once P AND 0xff)) 0x21 (drop_bit 8 (checksum_once P))
      \<and> 0x21 < length P \<and> P ! 0x20 = 0 \<and> P ! 0x21 = 0 \<and> length P = 0x30"
  unfolding onListening_def Let_def
  apply (rule exI)
  apply (intro conjI)
      apply (rule refl)
     apply (simp_all add: buf nth_store_real_neq length_store_real)
  done

lemma onListening_checksum:
  "wraparound_checksum (zero_checksum_field (onListening now ip p)) = stored_checksum (onListening now ip p)"
proof -
  obtain P where P: "onListening now ip p
        = store (store P 0x20 (checksum_once P AND 0xff)) 0x21 (drop_bit 8 (checksum_once P))"
      "0x21 < length P" "P ! 0x20 = 0" "P ! 0x21 = 0"
    using onListening_shape [of now ip p] by blast
  have "0 \<le> checksum_once P" "checksum_once P < 65536"
    using wraparound_checksum_range [of P] by (simp_all add: checksum_once_eq)
  from checksum_field_roundtrip [OF P(2,3,4) this]
  show ?thesis unfolding P(1) by (simp add: checksum_once_eq)
qed

lemma sendPacket_ciphertext:
  assumes "aes_block E" "length (key d) = 16" "length (iv d) = 16"
  shows "length (last (sent (sendPacket E command payload d))) = 0x38 + 16 * (length payload div 16)"
    and "drop 0x38 (last (sent (sendPacket E command payload d)))
          = cipher_update E (key d) (iv d) (take (16 * (length payload div 16)) payload)"
proof -
  obtain P where P: "last (sent (sendPacket E command payload d))
        = store (store P 0x20 (checksum_masked P AND 0xff)) 0x21 (drop_bit 8 (checksum_masked P))"
      "drop 0x38 P = cipher_update E (key d) (iv d) payload"
      "length P = 0x38 + length (cipher_update E (key d) (iv d) payload)"
    using last_sent_sendPacket [of E command payload d] by blast
  show "length (last (sent (sendPacket E command payload d))) = 0x38 + 16 * (length payload div 16)"
    unfolding P(1) using P(3) assms by (simp add: length_store length_cipher_update)
  show "drop 0x38 (last (sent (sendPacket E command payload d)))
          = cipher_update E (key d) (iv d) (take (16 * (length payload div 16)) payload)"
    unfolding P(1) using P(2) by (simp add: store_def cipher_update_take)
qed

lemma aes_block_plain: "aes_block plain_cipher"
  by (simp add: aes_block_def plain_cipher_def)

lemma dev0_key: "length (key dev0) = 16" "length (iv dev0) = 16"
  by (simp_all add: dev0_def new_BroadlinkDevice_def initial_key_def initial_iv_def)

lemma dev0_count: "count dev0 = 0"
  by (simp add: dev0_def new_BroadlinkDevice_def initial_count_zero)

text \<open>
  Claim C9: every call of \<open>sendPacket\<close> increments the sequence counter by exactly 1
  modulo 65536 before the packet is built (the packet carries the new value in its
  bytes \<open>0x28\<close> and \<open>0x29\<close>), so the counter lies in \<open>[0, 65535]\<close>, and after 65536
  sends it equals the starting value modulo 65536.
\<close>

theorem sendPacket_counter_wraps:
  assumes "length (key d) = 16" and "length (iv d) = 16"
  shows "count (sendPacket E command payload d) = (count d + 1) mod 65536
       \<and> 0 \<le> count (sendPacket E command payload d)
       \<and> count (sendPacket E command payload d) \<le> 65535
       \<and> uint (last (sent (sendPacket E command payload d)) ! 0x28)
           + 256 * uint (last (sent (sendPacket E command payload d)) ! 0x29) = (count d + 1) mod 65536
       \<and> (length ps = 65536 \<longrightarrow> count (send_all E ps d) = count d mod 65536)"
proof -
  have wrap: "length ps = 65536 \<longrightarrow> count (send_all E ps d) = count d mod 65536"
  proof
    assume len: "length ps = 65536"
    then have "ps \<noteq> []" by auto
    then have "count (send_all E ps d) = (count d + int (length ps)) mod 65536"
      by (rule send_all_count)
    then show "count (send_all E ps d) = count d mod 65536"
      by (simp add: len)
  qed
  have range: "0 \<le> (count d + 1) mod 65536 \<and> (count d + 1) mod 65536 \<le> 65535"
    by simp
  show ?thesis
    using wrap range sendPacket_packet_counter [of E command payload d]
    by (simp add: sendPacket_count)
qed

theorem sendPacket_counter_wraps_witness:
  "count (sendPacket plain_cipher 0x6a (alloc 16) dev0) = 1
   \<and> count (send_all plain_cipher (replicate 65536 (0x6a, alloc 16)) dev0) = 0"
  using sendPacket_counter_wraps [OF dev0_key, of plain_cipher "0x6a" "alloc 16"
          "replicate 65536 (0x6a, alloc 16)"]
  by (simp add: dev0_count)

text \<open>
  Claim C10: the ciphertext \<open>sendPacket\<close> appends to the \<open>0x38\<close>-byte header is
  \<open>16 * floor(n / 16)\<close> bytes long for a payload of \<open>n\<close> bytes, and it is the
  encryption of the first \<open>16 * floor(n / 16)\<close> bytes only: \<open>cipher.update\<close> keeps the
  rest and \<open>cipher.final\<close> is never called. For \<open>sendData(data)\<close> the payload is the
  4-byte header and the code, so unless \<open>data.length\<close> is 12 modulo 16 only a proper
  prefix of it is encrypted and sent.
\<close>

theorem ciphertext_whole_blocks_only:
  assumes "aes_block E" and "length (key d) = 16" and "length (iv d) = 16"
  shows "length (last (sent (sendPacket E command payload d))) = 0x38 + 16 * (length payload div 16)
       \<and> drop 0x38 (last (sent (sendPacket E command payload d)))
           = cipher_update E (key d) (iv d) (take (16 * (length payload div 16)) payload)
       \<and> length (last (sent (sendData E data d))) = 0x38 + 16 * ((4 + length data) div 16)
       \<and> drop 0x38 (last (sent (sendData E data d)))
           = cipher_update E (key d) (iv d)
               (take (16 * ((4 + length data) div 16)) ([0x02, 0x00, 0x00, 0x00] @ data))
       \<and> (length data mod 16 \<noteq> 12 \<longrightarrow> 16 * ((4 + length data) div 16) < 4 + length data)"
proof -
  have "length data mod 16 \<noteq> 12 \<longrightarrow> 16 * ((4 + length data) div 16) < 4 + length data"
    by presburger
  then show ?thesis
    using sendPacket_ciphertext [OF assms, of command payload]
          sendPacket_ciphertext [OF assms, of "0x6a" "[0x02, 0x00, 0x00, 0x00] @ data"]
    by (simp add: sendData_def Let_def)
qed

theorem ciphertext_whole_blocks_only_witness:
  "length (last (sent (sendData plain_cipher [1, 2, 3, 4, 5] dev0))) = 0x38
   \<and> drop 0x38 (last (sent (sendData plain_cipher [1, 2, 3, 4, 5] dev0))) = []
   \<and> length (last (sent (sendPacket plain_cipher 0x6a (alloc 16) dev0))) = 0x48"
  using ciphertext_whole_blocks_only [OF aes_block_plain dev0_key, of "0x6a" "alloc 16" "[1, 2, 3, 4, 5]"]
  by (simp add: cipher_update_def length_alloc)

text \<open>
  Claim C5: for every packet built, the 48-byte discovery packet of \<open>onListening\<close> and
  the command packet of \<open>sendPacket\<close>, recomputing the wraparound checksum (seed
  \<open>0xBEAF\<close>, modulo \<open>2^16\<close>) over the whole packet with the bytes \<open>0x20\<close> and
  \<open>0x21\<close> zeroed gives the little-endian value stored in those two bytes.
\<close>

theorem packet_checksum_reproduced:
  assumes "length (key d) = 16" and "length (iv d) = 16"
  shows "wraparound_checksum (zero_checksum_field (onListening now splitIPAddress socket_port))
           = stored_checksum (onListening now splitIPAddress socket_port)
       \<and> wraparound_checksum (zero_checksum_field (last (sent (sendPacket E command payload d))))
           = stored_checksum (last (sent (sendPacket E command payload d)))"
  using onListening_checksum sendPacket_checksum by simp

lemma sendPacket_dev0_checksum:
  "stored_checksum (last (sent (sendPacket plain_cipher 0x6a (alloc 16) dev0))) = 51962"
  by code_simp

theorem packet_checksum_reproduced_witness:
  "wraparound_checksum (zero_checksum_field (last (sent (sendPacket plain_cipher 0x6a (alloc 16) dev0))))
     = 51962"
  using packet_checksum_reproduced [OF dev0_key, of _ _ _ plain_cipher "0x6a" "alloc 16"]
        sendPacket_dev0_checksum
  by simp

text \<open>
  Claim C8: an RF-only operation (\<open>enterRFSweep\<close>, \<open>checkRFSweep\<close>, \<open>findRFPacket\<close>,
  \<open>cancelRFSweep\<close>) on a session whose device type is not in the RF-capable table is
  refused locally: the session is as before but for one diagnostic line; nothing is
  sent and the sequence counter is unchanged.
\<close>

theorem rf_operations_refused_locally:
  assumes "capabilites_RF d = (map_of rmPlusDeviceTypes (type d) \<noteq> None)"
      and "map_of rmPlusDeviceTypes (type d) = None"
  shows "\<forall>op \<in> {enterRFSweep, checkRFSweep, findRFPacket, cancelRFSweep}.
           op E d = d\<lparr>console := console d @ [NoRFCapabilities]\<rparr>
         \<and> sent (op E d) = sent d \<and> count (op E d) = count d"
  using assms
  by (simp add: enterRFSweep_def checkRFSweep_def findRFPacket_def cancelRFSweep_def log_line_def)

lemma dev1_no_rf: "capabilites_RF dev1 = (map_of rmPlusDeviceTypes (type dev1) \<noteq> None)"
  "map_of rmPlusDeviceTypes (type dev1) = None"
  by (simp_all add: dev1_def new_BroadlinkDevice_def rmPlusDeviceTypes_def)

theorem rf_operations_refused_locally_witness:
  "enterRFSweep plain_cipher dev1 = dev1\<lparr>console := [NoRFCapabilities]\<rparr>
   \<and> sent (checkRFSweep plain_cipher dev1) = []
   \<and> count (findRFPacket plain_cipher dev1) = 0
   \<and> sent (cancelRFSweep plain_cipher dev1) = []"
proof -
  have c: "console dev1 = []" "sent dev1 = []" "count dev1 = 0"
    by (simp_all add: dev1_def new_BroadlinkDevice_def initial_count_zero)
  show ?thesis
    using rf_operations_refused_locally [OF dev1_no_rf, of plain_cipher] c by simp
qed

text \<open>
  Claim C4 (the code departs from it): the claim has a random initial sequence counter,
  that is two draws of the random source in \<open>[0, 1)\<close> that give different counters.
  There are none: \<open>Math.random() & 0xffff\<close> converts the draw to the integer 0 before
  masking, so every new session starts with the counter 0.
\<close>

theorem initial_count_not_random:
  "\<not> (\<exists>r1 r2. 0 \<le> r1 \<and> r1 < 1 \<and> 0 \<le> r2 \<and> r2 < 1
        \<and> count (new_BroadlinkDevice h m t r1) \<noteq> count (new_BroadlinkDevice h m t r2))"
  by (auto simp: new_BroadlinkDevice_def initial_count_zero)

section \<open>The receive path\<close>

lemma length_cbc_decrypt:
  "aes_block D \<Longrightarrow> length k = 16 \<Longrightarrow> length prev = 16 \<Longrightarrow> 16 * n \<le> length data \<Longrightarrow>
   length (cbc_decrypt D k prev n data) = 16 * n"
proof (induction n arbitrary: prev data)
  case 0
  then show ?case by simp
next
  case (Suc n)
  have c: "length (take 16 data) = 16"
    using Suc.prems by simp
  then have b: "length (xor_block prev (D k (take 16 data))) = 16"
    using Suc.prems(1,2,3) by (simp add: length_xor_block aes_block_def)
  have "length (cbc_decrypt D k (take 16 data) n (drop 16 data)) = 16 * n"
    by (rule Suc.IH) (use Suc.prems c in simp_all)
  with b show ?case by (simp add: Let_def)
qed

lemma run_listener_DeviceReady: "run_listener DeviceReady l d = d"
  by (simp add: run_listener_def)

lemma fold_unchanged: "(\<And>x s. f x s = s) \<Longrightarrow> fold f xs s = s"
  by (induction xs) simp_all

lemma emit_DeviceReady: "emit DeviceReady d = d\<lparr>emitted := emitted d @ [DeviceReady]\<rparr>"
  unfolding emit_def by (rule fold_unchanged) (rule run_listener_DeviceReady)

lemma copy_tail:
  "n \<le> length src \<Longrightarrow> copy src (alloc (length src - n)) 0 n None = Inr (drop n src)"
  by (auto simp: copy_def alloc_def Let_def)

lemma copy_key:
  "16 \<le> length payload \<Longrightarrow>
   copy payload (alloc 0x10) 0 0x04 (Some 0x14) = Inr (take 16 (drop 4 payload @ replicate 4 0))"
  by (auto simp: copy_def alloc_def Let_def min_def)

lemma copy_id:
  "4 \<le> length payload \<Longrightarrow> copy payload (alloc 0x04) 0 0x00 (Some 0x04) = Inr (take 4 payload)"
  by (auto simp: copy_def alloc_def Let_def min_def)

text \<open>
  Claim C2, as amended: on a reply with command byte \<open>0xe9\<close> and no error code, the
  session replaces its key with the 16 payload bytes at offsets \<open>0x04\<close> to \<open>0x13\<close>
  (zero-filled at the end when the payload is a single block) and its session id with
  the 4 payload bytes at offset 0, and then emits the ready notification; the key is
  16 bytes long.
\<close>

theorem handshake_reply_sets_key_and_id:
  assumes "aes_block D" and "length (key d) = 16" and "length (iv d) = 16"
      and "0x38 < length response" and "(length response - 0x38) mod 16 = 0"
      and "response ! 0x22 = 0" and "response ! 0x23 = 0" and "response ! 0x26 = 0xe9"
  shows "let payload = cbc_decrypt D (key d) (iv d) ((length response - 0x38) div 16) (drop 0x38 response);
             k = take 16 (drop 4 payload @ replicate 4 0)
         in listen_message D response d = Inr (emit DeviceReady (d\<lparr>key := k, id_buf := take 4 payload\<rparr>))
          \<and> emitted (emit DeviceReady (d\<lparr>key := k, id_buf := take 4 payload\<rparr>)) = emitted d @ [DeviceReady]
          \<and> key (emit DeviceReady (d\<lparr>key := k, id_buf := take 4 payload\<rparr>)) = k
          \<and> id_buf (emit DeviceReady (d\<lparr>key := k, id_buf := take 4 payload\<rparr>)) = take 4 payload
          \<and> length k = 16
          \<and> (0x14 \<le> length payload \<longrightarrow> k = take 16 (drop 4 payload))"
proof -
  define n where "n = (length response - 0x38) div 16"
  define payload where "payload = cbc_decrypt D (key d) (iv d) n (drop 0x38 response)"
  have n: "16 * n = length response - 0x38" "0 < n"
    using assms(4,5) unfolding n_def by auto
  have len: "length payload = 16 * n"
    unfolding payload_def by (rule length_cbc_decrypt) (use assms(1,2,3) n in simp_all)
  have p16: "16 \<le> length payload" "4 \<le> length payload"
    using len n by simp_all
  have enc: "copy response (alloc (length response - 0x38)) 0 0x38 None = Inr (drop 0x38 response)"
    by (rule copy_tail) (use assms(4) in simp)
  have err: "num (load response 0x22) OR push_bit 8 (num (load response 0x23)) = 0"
    using assms(4,6,7) by (simp add: load_def num_def)
  have cmd: "load response 0x26 = Some 0xe9"
    using assms(4,8) by (simp add: load_def)
  have dec: "decipher_all D (key d) (iv d) (drop 0x38 response) = Inr payload"
    using assms(5) by (simp add: decipher_all_def payload_def n_def)
  have run: "listen_message D response d
      = Inr (emit DeviceReady (d\<lparr>key := take 16 (drop 4 payload @ replicate 4 0), id_buf := take 4 payload\<rparr>))"
    using assms(4) by (simp add: listen_message_def then_do_def enc err cmd dec copy_key [OF p16(1)] copy_id [OF p16(2)])
  have k16: "length (take 16 (drop 4 payload @ replicate 4 0)) = 16"
    using p16 by simp
  have "0x14 \<le> length payload \<longrightarrow> take 16 (drop 4 payload @ replicate 4 0) = take 16 (drop 4 payload)"
    by simp
  with run k16 show ?thesis
    unfolding Let_def payload_def [symmetric] n_def [symmetric]
    by (simp add: emit_DeviceReady)
qed

lemma handshake_reply0_facts:
  "0x38 < length handshake_reply0" "(length handshake_reply0 - 0x38) mod 16 = 0"
  "handshake_reply0 ! 0x22 = 0" "handshake_reply0 ! 0x23 = 0" "handshake_reply0 ! 0x26 = 0xe9"
  by (simp_all add: handshake_reply0_def store_def alloc_def nth_append)

theorem handshake_reply_sets_key_and_id_witness:
  "\<exists>d'. listen_message plain_cipher handshake_reply0 dev0 = Inr d'
        \<and> emitted d' = [DeviceReady] \<and> length (key d') = 16"
proof -
  have e: "emitted dev0 = []"
    by (simp add: dev0_def new_BroadlinkDevice_def)
  show ?thesis
    using handshake_reply_sets_key_and_id [OF aes_block_plain dev0_key handshake_reply0_facts]
    unfolding Let_def by (simp add: e)
qed

text \<open>
  The claim as stated (14 payload bytes) fails: in this reply the last two bytes of the
  new key are the payload bytes at offsets 18 and 19, not the zeros the key buffer was
  allocated with.
\<close>

theorem handshake_key_fourteen_bytes_counterexample:
  "decipher_all plain_cipher (key dev0) (iv dev0) (drop 0x38 handshake_reply0) = Inr handshake_payload0
   \<and> map_sum id key (listen_message plain_cipher handshake_reply0 dev0)
       = Inr (take 16 (drop 4 handshake_payload0))
   \<and> take 16 (drop 4 handshake_payload0) \<noteq> take 14 (drop 4 handshake_payload0) @ [0, 0]"
  by code_simp

section \<open>The discovery engine: classification\<close>

lemma supported_tables_disjoint:
  "map_of rmDeviceTypes t \<noteq> None \<Longrightarrow> map_of rmPlusDeviceTypes t = None"
  by (auto simp: rmDeviceTypes_def rmPlusDeviceTypes_def split: if_splits)

lemma supported_not_unsupported:
  "map_of rmDeviceTypes t \<noteq> None \<or> map_of rmPlusDeviceTypes t \<noteq> None \<Longrightarrow>
   map_of unsupportedDeviceTypes t = None \<and> \<not> (0x7530 \<le> t \<and> t \<le> 0x7918)"
  by (auto simp: rmDeviceTypes_def rmPlusDeviceTypes_def unsupportedDeviceTypes_def split: if_splits)

lemma addDevice_index_ts_never_found:
  "Found name h' \<notin> set (engine_console b) \<Longrightarrow>
   Found name h' \<notin> set (engine_console (addDevice_index_ts h macAddress t b))"
  using supported_tables_disjoint [of t]
  by (auto simp: addDevice_index_ts_def engine_log_def)

lemma sendPacket_mac: "mac (sendPacket E command payload d) = mac d"
  by (simp add: sendPacket_def Let_def)

lemma sendPacket_caps: "capabilites_RF (sendPacket E command payload d) = capabilites_RF d"
  by (simp add: sendPacket_def Let_def)

lemma authenticate_mac: "mac (authenticate E d) = mac d"
  unfolding authenticate_def Let_def by (rule sendPacket_mac)

lemma authenticate_caps: "capabilites_RF (authenticate E d) = capabilites_RF d"
  unfolding authenticate_def Let_def by (rule sendPacket_caps)

lemma new_session_mac: "mac (new_session E r h m t) = m"
  by (simp add: new_session_def authenticate_mac on_def new_BroadlinkDevice_def)

lemma new_session_caps: "capabilites_RF (new_session E r h m t) = (map_of rmPlusDeviceTypes t \<noteq> None)"
  by (simp add: new_session_def authenticate_caps on_def new_BroadlinkDevice_def)

lemma addDevice_accepts:
  assumes "devices b (to_hex m) = None"
      and "map_of rmDeviceTypes t \<noteq> None \<or> map_of rmPlusDeviceTypes t \<noteq> None"
  shows "addDevice E r h m t b
       = b\<lparr>devices := (devices b)(to_hex m \<mapsto> length (sessions b)),
           engine_console := engine_console b @ [Found (model (new_BroadlinkDevice h m t r)) h],
           sessions := sessions b @ [new_session E r h m t]\<rparr>"
  using assms supported_not_unsupported [of t]
  by (auto simp: addDevice_def Let_def engine_log_def new_session_def)

lemma addDevice_rejects:
  assumes "map_of rmDeviceTypes t = None" and "map_of rmPlusDeviceTypes t = None"
  shows "sessions (addDevice E r h m t b) = sessions b \<and> devices (addDevice E r h m t b) = devices b"
  using assms by (auto simp: addDevice_def Let_def engine_log_def)

lemma addDevice_classification:
  assumes "devices b (to_hex m) = None"
  shows "(map_of unsupportedDeviceTypes t \<noteq> None \<or> (0x7530 \<le> t \<and> t \<le> 0x7918) \<longrightarrow>
            sessions (addDevice E r h m t b) = sessions b \<and> devices (addDevice E r h m t b) = devices b)
       \<and> (map_of rmDeviceTypes t \<noteq> None \<longrightarrow>
            sessions (addDevice E r h m t b) = sessions b @ [new_session E r h m t]
            \<and> \<not> capabilites_RF (new_session E r h m t))
       \<and> (map_of rmPlusDeviceTypes t \<noteq> None \<longrightarrow>
            sessions (addDevice E r h m t b) = sessions b @ [new_session E r h m t]
            \<and> capabilites_RF (new_session E r h m t))
       \<and> (sessions (addDevice E r h m t b) = sessions b
            \<and> engine_console (addDevice E r h m t b) \<noteq> engine_console b \<longrightarrow>
            map_of rmDeviceTypes t = None \<and> map_of rmPlusDeviceTypes t = None)"
proof (cases "map_of rmDeviceTypes t \<noteq> None \<or> map_of rmPlusDeviceTypes t \<noteq> None")
  case True
  have u: "map_of unsupportedDeviceTypes t = None" "\<not> (0x7530 \<le> t \<and> t \<le> 0x7918)"
    using supported_not_unsupported [OF True] by simp_all
  have s: "sessions (addDevice E r h m t b) = sessions b @ [new_session E r h m t]"
    using addDevice_accepts [OF assms True, of E r h] by simp
  have c: "map_of rmDeviceTypes t \<noteq> None \<longrightarrow> \<not> capabilites_RF (new_session E r h m t)"
    using supported_tables_disjoint [of t] by (simp add: new_session_caps)
  show ?thesis
    using u s c by (simp add: new_session_caps)
next
  case False
  then have n: "map_of rmDeviceTypes t = None" "map_of rmPlusDeviceTypes t = None"
    by simp_all
  show ?thesis
    using n addDevice_rejects [OF n, of E r h m b] by simp
qed

lemma addDevice_examples:
  "sessions (addDevice E r h m 0x2737 new_Broadlink) = [new_session E r h m 0x2737]"
  "\<not> capabilites_RF (new_session E r h m 0x2737)"
  "sessions (addDevice E r h m 0x272a new_Broadlink) = [new_session E r h m 0x272a]"
  "capabilites_RF (new_session E r h m 0x272a)"
  "sessions (addDevice E r h m 0x7600 new_Broadlink) = []"
  "sessions (addDevice E r h m 0 new_Broadlink) = []"
  "sessions (addDevice E r h m 0xFFFF new_Broadlink) = []"
  by (simp_all add: addDevice_def new_session_def authenticate_caps on_def new_BroadlinkDevice_def
      new_Broadlink_def engine_log_def Let_def rmDeviceTypes_def rmPlusDeviceTypes_def
      unsupportedDeviceTypes_def)

text \<open>
  Claim C1 (the \<open>addDevice\<close> of \<open>src/src/index.ts\<close> departs from it): a type id of
  the unsupported table or of the range \<open>[0x7530, 0x7918]\<close> is rejected, a type id of a
  supported table is accepted (\<open>0x2737\<close> gives a session without RF, \<open>0x272a\<close> one with
  RF), and only an id absent from both supported tables is ignored with a diagnostic.
  The \<open>addDevice\<close> of the library does this (\<open>addDevice_classification\<close> and
  \<open>addDevice_examples\<close> above). The \<open>addDevice\<close> of \<open>src/src/index.ts\<close> tests the two
  supported tables with a disjunction; no id is in both tables, so it ignores every id
  as unknown (\<open>addDevice_index_ts_never_found\<close>), here the ids \<open>0x2737\<close> and \<open>0x272a\<close>
  of the claim.
\<close>

theorem addDevice_index_ts_ignores_supported:
  "addDevice_index_ts h macAddress 0x2737 new_Broadlink
     = engine_log (IgnoringUnknown 0x2737 h) new_Broadlink
   \<and> addDevice_index_ts h macAddress 0x272a new_Broadlink
     = engine_log (IgnoringUnknown 0x272a h) new_Broadlink"
  by (simp add: addDevice_index_ts_def new_Broadlink_def rmDeviceTypes_def rmPlusDeviceTypes_def
      unsupportedDeviceTypes_def)

section \<open>The discovery engine: one session per identity\<close>

text \<open>
  The identity \<open>onMessage\<close> extracts. A reply of fewer than 63 bytes has no byte at an
  offset one of the six copies starts from, and the handler throws before it looks at
  the registry; a reply of at least 64 bytes gives the six bytes at offsets \<open>0x3D\<close>,
  \<open>0x3E\<close>, \<open>0x3F\<close>, \<open>0x3C\<close>, \<open>0x3B\<close> and \<open>0x3A\<close>.
\<close>

lemma six_bytes: "length (m :: buffer) = 6 \<Longrightarrow> m = [m ! 0, m ! 1, m ! 2, m ! 3, m ! 4, m ! 5]"
  by (simp add: list_eq_iff_nth_eq less_Suc_eq numeral_eq_Suc)

lemma macAddressBuffer_bytes:
  assumes "64 \<le> length message"
  shows "macAddressBuffer message
       = Inr [message ! 0x3D, message ! 0x3E, message ! 0x3F, message ! 0x3C, message ! 0x3B, message ! 0x3A]"
proof -
  obtain m1 where m1: "copy message (alloc 6) 0 0x3D None = Inr m1" "length m1 = 6"
      "\<forall>i < 6. m1 ! i = (if 0 \<le> i \<and> i - 0 < length message - 0x3D then message ! (0x3D + (i - 0)) else alloc 6 ! i)"
    using copy_nth [of "0x3D" message "alloc 6" 0] assms by (auto simp: alloc_def)
  obtain m2 where m2: "copy message m1 1 0x3E None = Inr m2" "length m2 = 6"
      "\<forall>i < 6. m2 ! i = (if 1 \<le> i \<and> i - 1 < length message - 0x3E then message ! (0x3E + (i - 1)) else m1 ! i)"
    using copy_nth [of "0x3E" message m1 1] assms m1(2) by auto
  obtain m3 where m3: "copy message m2 2 0x3F None = Inr m3" "length m3 = 6"
      "\<forall>i < 6. m3 ! i = (if 2 \<le> i \<and> i - 2 < length message - 0x3F then message ! (0x3F + (i - 2)) else m2 ! i)"
    using copy_nth [of "0x3F" message m2 2] assms m2(2) by auto
  obtain m4 where m4: "copy message m3 3 0x3C None = Inr m4" "length m4 = 6"
      "\<forall>i < 6. m4 ! i = (if 3 \<le> i \<and> i - 3 < length message - 0x3C then message ! (0x3C + (i - 3)) else m3 ! i)"
    using copy_nth [of "0x3C" message m3 3] assms m3(2) by auto
  obtain m5 where m5: "copy message m4 4 0x3B None = Inr m5" "length m5 = 6"
      "\<forall>i < 6. m5 ! i = (if 4 \<le> i \<and> i - 4 < length message - 0x3B then message ! (0x3B + (i - 4)) else m4 ! i)"
    using copy_nth [of "0x3B" message m4 4] assms m4(2) by auto
  obtain m6 where m6: "copy message m5 5 0x3A None = Inr m6" "length m6 = 6"
      "\<forall>i < 6. m6 ! i = (if 5 \<le> i \<and> i - 5 < length message - 0x3A then message ! (0x3A + (i - 5)) else m5 ! i)"
    using copy_nth [of "0x3A" message m5 5] assms m5(2) by auto
  have run: "macAddressBuffer message = Inr m6"
    unfolding macAddressBuffer_def then_do_def m1(1) m2(1) m3(1) m4(1) m5(1) m6(1) sum.case
    by (rule refl)
  have "m6 ! 0 = message ! 0x3D" "m6 ! 1 = message ! 0x3E" "m6 ! 2 = message ! 0x3F"
       "m6 ! 3 = message ! 0x3C" "m6 ! 4 = message ! 0x3B" "m6 ! 5 = message ! 0x3A"
    using m1(3) m2(3) m3(3) m4(3) m5(3) m6(3) assms by simp_all
  then show ?thesis
    unfolding run using six_bytes [OF m6(2)] by simp
qed

lemma macAddressBuffer_short:
  assumes "length message < 63"
  shows "macAddressBuffer message = Inl RangeError"
  using assms by (auto simp: macAddressBuffer_def copy_def then_do_def Let_def alloc_def)

lemma macAddressBuffer_Inr:
  assumes "macAddressBuffer message = Inr m"
  shows "63 \<le> length message \<and> length m = 6"
proof -
  have "\<not> length message < 63"
  proof
    assume "length message < 63"
    then have "macAddressBuffer message = Inl RangeError"
      by (rule macAddressBuffer_short)
    then show False using assms by simp
  qed
  moreover have "length m = 6"
    using assms
    by (auto simp: macAddressBuffer_def then_do_def alloc_def split: sum.splits dest!: copy_result_length)
  ultimately show ?thesis by simp
qed

lemma onMessage_short:
  "length message < 63 \<Longrightarrow> onMessage E r message h b = Inl RangeError"
  by (simp add: onMessage_def macAddressBuffer_short then_do_def)

lemma registry_ok_distinct:
  assumes "registry_ok b"
  shows "distinct (map (\<lambda>d. to_hex (mac d)) (sessions b))"
  unfolding distinct_conv_nth
proof (intro allI impI)
  fix i j
  assume i: "i < length (map (\<lambda>d. to_hex (mac d)) (sessions b))"
     and j: "j < length (map (\<lambda>d. to_hex (mac d)) (sessions b))"
     and ne: "i \<noteq> j"
  have a: "devices b (to_hex (mac (sessions b ! i))) = Some i"
    using assms i by (simp add: registry_ok_def)
  have c: "devices b (to_hex (mac (sessions b ! j))) = Some j"
    using assms j by (simp add: registry_ok_def)
  have "to_hex (mac (sessions b ! i)) \<noteq> to_hex (mac (sessions b ! j))"
  proof
    assume "to_hex (mac (sessions b ! i)) = to_hex (mac (sessions b ! j))"
    then have "devices b (to_hex (mac (sessions b ! i))) = devices b (to_hex (mac (sessions b ! j)))"
      by (rule arg_cong)
    then have "Some i = Some j"
      unfolding a c .
    then show False using ne by simp
  qed
  then show "map (\<lambda>d. to_hex (mac d)) (sessions b) ! i \<noteq> map (\<lambda>d. to_hex (mac d)) (sessions b) ! j"
    using i j by simp
qed

lemma addDevice_cases:
  "(sessions (addDevice E r h m t b) = sessions b \<and> devices (addDevice E r h m t b) = devices b)
   \<or> (devices b (to_hex m) = None
       \<and> sessions (addDevice E r h m t b) = sessions b @ [new_session E r h m t]
       \<and> devices (addDevice E r h m t b) = (devices b)(to_hex m \<mapsto> length (sessions b)))"
proof (cases "devices b (to_hex m) = None
    \<and> (map_of rmDeviceTypes t \<noteq> None \<or> map_of rmPlusDeviceTypes t \<noteq> None)")
  case True
  then show ?thesis
    using addDevice_accepts [of b m t E r h] by simp
next
  case False
  then have "sessions (addDevice E r h m t b) = sessions b \<and> devices (addDevice E r h m t b) = devices b"
    using addDevice_rejects [of t E r h m b]
    by (auto simp: addDevice_def)
  then show ?thesis by simp
qed

lemma onMessage_known:
  assumes "macAddressBuffer message = Inr m" and "devices b (to_hex m) \<noteq> None"
  shows "onMessage E r message h b = Inr b"
  using assms by (simp add: onMessage_def then_do_def)

lemma onMessage_cases:
  assumes "onMessage E r message h b = Inr b'"
  shows "(sessions b' = sessions b \<and> devices b' = devices b)
       \<or> (\<exists>m dev. macAddressBuffer message = Inr m \<and> devices b (to_hex m) = None \<and> mac dev = m
            \<and> sessions b' = sessions b @ [dev]
            \<and> devices b' = (devices b)(to_hex m \<mapsto> length (sessions b)))"
proof (cases "macAddressBuffer message")
  case (Inl e)
  then show ?thesis using assms by (simp add: onMessage_def then_do_def)
next
  case (Inr m)
  show ?thesis
  proof (cases "devices b (to_hex m) = None")
    case False
    then have "b' = b"
      using assms onMessage_known [OF Inr, of b E r h] by simp
    then show ?thesis by simp
  next
    case True
    define t where "t = num (load message 0x34) OR push_bit 8 (num (load message 0x35))"
    define b0 where "b0 = engine_log (Discovered (to_hex m) t) b"
    have b0: "sessions b0 = sessions b" "devices b0 = devices b"
      by (simp_all add: b0_def engine_log_def)
    have b': "b' = addDevice E r h m t b0"
      using assms Inr True by (simp add: onMessage_def then_do_def Let_def t_def b0_def)
    show ?thesis
      using addDevice_cases [of E r h m t b0] Inr True new_session_mac [of E r h m t]
      unfolding b' b0 by auto
  qed
qed

lemma onMessage_registry_ok:
  assumes "onMessage E r message h b = Inr b'" and "registry_ok b"
  shows "registry_ok b'"
  using onMessage_cases [OF assms(1)]
proof (elim disjE exE conjE)
  assume "sessions b' = sessions b" "devices b' = devices b"
  then show ?thesis using assms(2) by (simp add: registry_ok_def)
next
  fix m dev
  assume a: "devices b (to_hex m) = None" "mac dev = m" "sessions b' = sessions b @ [dev]"
    "devices b' = (devices b)(to_hex m \<mapsto> length (sessions b))"
  show ?thesis
    unfolding registry_ok_def
  proof (intro allI impI)
    fix i assume i: "i < length (sessions b')"
    show "devices b' (to_hex (mac (sessions b' ! i))) = Some i"
    proof (cases "i < length (sessions b)")
      case True
      then have old: "devices b (to_hex (mac (sessions b ! i))) = Some i"
        using assms(2) by (simp add: registry_ok_def)
      then have "to_hex (mac (sessions b ! i)) \<noteq> to_hex m"
        using a(1) by auto
      then show ?thesis using True old a by (simp add: nth_append)
    next
      case False
      then have "i = length (sessions b)" using i a(3) by simp
      then show ?thesis using a by simp
    qed
  qed
qed

lemma onMessage_monotone:
  assumes "onMessage E r message h b = Inr b'"
  shows "(\<exists>ys. sessions b' = sessions b @ ys) \<and> (\<forall>k i. devices b k = Some i \<longrightarrow> devices b' k = Some i)"
  using onMessage_cases [OF assms] by auto

lemma run_replies_registry_ok:
  "run_replies E rs b = Inr b' \<Longrightarrow> registry_ok b \<Longrightarrow> registry_ok b'"
proof (induction rs arbitrary: b)
  case Nil
  then show ?case by simp
next
  case (Cons a rs)
  obtain r message h where a: "a = (r, message, h)" by (cases a)
  from Cons.prems(1) obtain b1 where b1: "onMessage E r message h b = Inr b1" "run_replies E rs b1 = Inr b'"
    by (auto simp: a then_do_def split: sum.splits)
  show ?case
    using Cons.IH [OF b1(2)] onMessage_registry_ok [OF b1(1) Cons.prems(2)] by simp
qed

lemma run_replies_monotone:
  "run_replies E rs b = Inr b' \<Longrightarrow>
   (\<exists>ys. sessions b' = sessions b @ ys) \<and> (\<forall>k i. devices b k = Some i \<longrightarrow> devices b' k = Some i)"
proof (induction rs arbitrary: b)
  case Nil
  then show ?case by simp
next
  case (Cons a rs)
  obtain r message h where a: "a = (r, message, h)" by (cases a)
  from Cons.prems(1) obtain b1 where b1: "onMessage E r message h b = Inr b1" "run_replies E rs b1 = Inr b'"
    by (auto simp: a then_do_def split: sum.splits)
  show ?case
    using Cons.IH [OF b1(2)] onMessage_monotone [OF b1(1)] by auto
qed

lemma registry_ok_new: "registry_ok new_Broadlink"
  by (simp add: registry_ok_def new_Broadlink_def)

text \<open>
  Claim C6: once a reply has been accepted and its session created, every later reply
  with the same extracted identity is ignored before classification (the engine is
  left as it is, without even the discovery line), so in every state the engine
  reaches the sessions have pairwise different identities and exactly one session has
  the identity of the accepted reply. Replies from which an identity is extracted are
  at least 63 bytes long; on a shorter one the handler throws (\<open>onMessage_short\<close>).
\<close>

theorem one_session_per_identity:
  assumes "run_replies E rs new_Broadlink = Inr b"
      and "onMessage E r1 message1 h1 b = Inr b1"
      and "length (sessions b1) = Suc (length (sessions b))"
      and "macAddressBuffer message2 = macAddressBuffer message1"
      and "run_replies E rs' b1 = Inr b2"
  shows "onMessage E r2 message2 h2 b2 = Inr b2
       \<and> distinct (map (\<lambda>d. to_hex (mac d)) (sessions b2))
       \<and> length (filter (\<lambda>d. Inr (mac d) = macAddressBuffer message1) (sessions b2)) = 1
       \<and> 63 \<le> length message1 \<and> 63 \<le> length message2"
proof -
  have ok: "registry_ok b"
    using run_replies_registry_ok [OF assms(1) registry_ok_new] .
  have ok1: "registry_ok b1"
    using onMessage_registry_ok [OF assms(2) ok] .
  have ok2: "registry_ok b2"
    using run_replies_registry_ok [OF assms(5) ok1] .
  obtain m dev where m: "macAddressBuffer message1 = Inr m" "mac dev = m"
      "sessions b1 = sessions b @ [dev]" "devices b1 (to_hex m) = Some (length (sessions b))"
    using onMessage_cases [OF assms(2)] assms(3) by auto
  obtain ys where ys: "sessions b2 = sessions b1 @ ys"
      and keep: "devices b2 (to_hex m) = Some (length (sessions b))"
    using run_replies_monotone [OF assms(5)] m(4) by blast
  have ignored: "onMessage E r2 message2 h2 b2 = Inr b2"
    by (rule onMessage_known [of message2 m]) (use assms(4) m(1) keep in simp_all)
  have dist: "distinct (map (\<lambda>d. to_hex (mac d)) (sessions b2))"
    using registry_ok_distinct [OF ok2] .
  have one: "length (filter (\<lambda>d. mac d = m) (sessions b2)) = 1"
  proof -
    let ?n = "length (sessions b)"
    have n: "?n < length (sessions b2)" "mac (sessions b2 ! ?n) = m"
      using ys m(2,3) by (simp_all add: nth_append)
    have uniq: "i = ?n" if "i < length (sessions b2)" "mac (sessions b2 ! i) = m" for i
    proof -
      have "devices b2 (to_hex (mac (sessions b2 ! i))) = Some i"
        using ok2 that(1) by (simp add: registry_ok_def)
      then have "devices b2 (to_hex m) = Some i"
        unfolding that(2) .
      then have "Some i = Some ?n"
        unfolding keep by (rule sym)
      then show ?thesis by simp
    qed
    have "{i. i < length (sessions b2) \<and> mac (sessions b2 ! i) = m} = {?n}"
      using n uniq by blast
    then show ?thesis
      by (simp add: length_filter_conv_card)
  qed
  have eq: "(\<lambda>d. Inr (mac d) = macAddressBuffer message1) = (\<lambda>d. mac d = m)"
    using m(1) by auto
  have m2: "macAddressBuffer message2 = Inr m"
    using assms(4) m(1) by simp
  have long: "63 \<le> length message1" "63 \<le> length message2"
    using macAddressBuffer_Inr [OF m(1)] macAddressBuffer_Inr [OF m2] by simp_all
  show ?thesis
    unfolding eq using ignored dist one long by simp
qed

lemma discovery_reply0_mac: "macAddressBuffer discovery_reply0 = Inr [3, 2, 1, 4, 5, 6]"
  by code_simp

lemma discovery_reply0_type:
  "num (load discovery_reply0 0x34) OR push_bit 8 (num (load discovery_reply0 0x35)) = 0x272a"
  by code_simp

lemma first_reply_accepted:
  "\<exists>b1. onMessage plain_cipher (1 / 2) discovery_reply0 host0 new_Broadlink = Inr b1
       \<and> length (sessions b1) = Suc (length (sessions new_Broadlink))"
proof -
  have none: "devices (engine_log (Discovered (to_hex [3, 2, 1, 4, 5, 6]) 0x272a) new_Broadlink)
      (to_hex [3, 2, 1, 4, 5, 6]) = None"
    by (simp add: engine_log_def new_Broadlink_def)
  have sup: "map_of rmDeviceTypes 0x272a \<noteq> None \<or> map_of rmPlusDeviceTypes 0x272a \<noteq> None"
    by (simp add: rmPlusDeviceTypes_def)
  show ?thesis
    unfolding onMessage_def discovery_reply0_mac discovery_reply0_type then_do_def Let_def
    using addDevice_accepts [OF none sup, of plain_cipher "1 / 2" host0]
    by (simp add: new_Broadlink_def engine_log_def)
qed

theorem one_session_per_identity_witness:
  "\<exists>b1. onMessage plain_cipher (1 / 2) discovery_reply0 host0 new_Broadlink = Inr b1
       \<and> onMessage plain_cipher (1 / 4) discovery_reply0 host0 b1 = Inr b1
       \<and> length (filter (\<lambda>d. Inr (mac d) = macAddressBuffer discovery_reply0) (sessions b1)) = 1"
proof -
  obtain b1 where b1: "onMessage plain_cipher (1 / 2) discovery_reply0 host0 new_Broadlink = Inr b1"
      "length (sessions b1) = Suc (length (sessions new_Broadlink))"
    using first_reply_accepted by blast
  have r0: "run_replies plain_cipher [] new_Broadlink = Inr new_Broadlink"
    by simp
  have r1: "run_replies plain_cipher [] b1 = Inr b1"
    by simp
  show ?thesis
    using one_session_per_identity [OF r0 b1 refl r1, of "1 / 4" host0] b1(1) by blast
qed

text \<open>
  The first 62 bytes of that reply are too short a datagram: the handler throws and no
  engine state results, whatever the registry holds.
\<close>

lemma short_reply_throws:
  "length (take 62 discovery_reply0) = 62
   \<and> onMessage plain_cipher (1 / 2) (take 62 discovery_reply0) host0 b = Inl RangeError"
proof -
  have l: "length (take 62 discovery_reply0) = 62"
    by (simp add: discovery_reply0_def store_def alloc_def)
  then show ?thesis
    using onMessage_short [of "take 62 discovery_reply0" plain_cipher "1 / 2" host0 b] by simp
qed

section \<open>The RF learning sequences: the session invariant\<close>


























































section \<open>The RF learning sequences: reuse and settlement\<close>







































lemma emit_integrator_idle: "emit_integrator ev k (\<lambda>d. ((), d)) d = ((), emit ev d)"
proof -
  have "fold f (drop k xs) (fold f (take k xs) s) = fold f xs s"
    for f :: "listener \<Rightarrow> BroadlinkDevice \<Rightarrow> BroadlinkDevice" and xs s
    using fold_append [of f "take k xs" "drop k xs"] by simp
  then show ?thesis
    by (simp add: emit_integrator_def emit_def Let_def)
qed







end
